theory Spec2Isabelle
  imports Complex_Main
begin

section \<open>Python primitives used by util_sl.py\<close>

text \<open>
  A Python \<open>str\<close> is a sequence of Unicode code points, so a text is a list of natural
  numbers; \<open>str\<close> turns an ASCII literal into one. Confidences and box coordinates are
  Python floats; the program only compares them, so they are reals here. A dictionary
  subscript on a missing key raises \<open>KeyError\<close>, which is the only exception the string
  functions can raise.
\<close>

type_synonym pystr = "nat list"

definition str :: "string \<Rightarrow> pystr" where
  "str s = map of_char s"

abbreviation cp :: "char \<Rightarrow> nat" where
  "cp \<equiv> of_char"

abbreviation space :: nat where
  "space \<equiv> cp (CHR '' '')"

abbreviation hyphen :: nat where
  "hyphen \<equiv> cp (CHR ''-'')"

abbreviation newline :: nat where
  "newline \<equiv> cp (CHR 0x0A)"

datatype py_error = KeyError nat

text \<open>\<open>string.ascii_uppercase\<close> and the literal \<open>"0123456789"\<close>.\<close>

definition ascii_uppercase :: pystr where
  "ascii_uppercase = str ''ABCDEFGHIJKLMNOPQRSTUVWXYZ''"

definition decimal_digits :: pystr where
  "decimal_digits = str ''0123456789''"

subsection \<open>str.upper()\<close>

text \<open>
  \<open>str.upper()\<close> replaces every code point by its full upper-case mapping, which is one
  to three code points long. On ASCII it maps \<open>a\<close>-\<open>z\<close> to \<open>A\<close>-\<open>Z\<close>. Beyond ASCII
  the mapping is data of the Unicode character database (version 14.0.0 in CPython
  3.11): \<open>upper_special\<close> lists the code points whose mapping is longer than one code
  point, and a row \<open>(lo, hi, step, target)\<close> of \<open>upper_ranges\<close> maps the code points
  \<open>lo, lo + step, ..., hi\<close> to \<open>target, target + step, ...\<close>. Every other code point
  is its own upper case.
\<close>

definition upper_special :: "(nat \<times> nat list) list" where
  "upper_special =
     [
      (223, [83, 83]), (329, [700, 78]), (496, [74, 780]), (912, [921, 776, 769]),
      (944, [933, 776, 769]), (1415, [1333, 1362]), (7830, [72, 817]), (7831, [84, 776]),
      (7832, [87, 778]), (7833, [89, 778]), (7834, [65, 702]), (8016, [933, 787]),
      (8018, [933, 787, 768]), (8020, [933, 787, 769]), (8022, [933, 787, 834]), (8064, [7944, 921]),
      (8065, [7945, 921]), (8066, [7946, 921]), (8067, [7947, 921]), (8068, [7948, 921]),
      (8069, [7949, 921]), (8070, [7950, 921]), (8071, [7951, 921]), (8072, [7944, 921]),
      (8073, [7945, 921]), (8074, [7946, 921]), (8075, [7947, 921]), (8076, [7948, 921]),
      (8077, [7949, 921]), (8078, [7950, 921]), (8079, [7951, 921]), (8080, [7976, 921]),
      (8081, [7977, 921]), (8082, [7978, 921]), (8083, [7979, 921]), (8084, [7980, 921]),
      (8085, [7981, 921]), (8086, [7982, 921]), (8087, [7983, 921]), (8088, [7976, 921]),
      (8089, [7977, 921]), (8090, [7978, 921]), (8091, [7979, 921]), (8092, [7980, 921]),
      (8093, [7981, 921]), (8094, [7982, 921]), (8095, [7983, 921]), (8096, [8040, 921]),
      (8097, [8041, 921]), (8098, [8042, 921]), (8099, [8043, 921]), (8100, [8044, 921]),
      (8101, [8045, 921]), (8102, [8046, 921]), (8103, [8047, 921]), (8104, [8040, 921]),
      (8105, [8041, 921]), (8106, [8042, 921]), (8107, [8043, 921]), (8108, [8044, 921]),
      (8109, [8045, 921]), (8110, [8046, 921]), (8111, [8047, 921]), (8114, [8122, 921]),
      (8115, [913, 921]), (8116, [902, 921]), (8118, [913, 834]), (8119, [913, 834, 921]),
      (8124, [913, 921]), (8130, [8138, 921]), (8131, [919, 921]), (8132, [905, 921]),
      (8134, [919, 834]), (8135, [919, 834, 921]), (8140, [919, 921]), (8146, [921, 776, 768]),
      (8147, [921, 776, 769]), (8150, [921, 834]), (8151, [921, 776, 834]), (8162, [933, 776, 768]),
      (8163, [933, 776, 769]), (8164, [929, 787]), (8166, [933, 834]), (8167, [933, 776, 834]),
      (8178, [8186, 921]), (8179, [937, 921]), (8180, [911, 921]), (8182, [937, 834]),
      (8183, [937, 834, 921]), (8188, [937, 921]), (64256, [70, 70]), (64257, [70, 73]),
      (64258, [70, 76]), (64259, [70, 70, 73]), (64260, [70, 70, 76]), (64261, [83, 84]),
      (64262, [83, 84]), (64275, [1348, 1350]), (64276, [1348, 1333]), (64277, [1348, 1339]),
      (64278, [1358, 1350]), (64279, [1348, 1341])
     ]"

definition upper_ranges :: "(nat \<times> nat \<times> nat \<times> nat) list" where
  "upper_ranges =
     [
      (181, 181, 1, 924), (224, 246, 1, 192), (248, 254, 1, 216), (255, 255, 1, 376),
      (257, 303, 2, 256), (305, 305, 1, 73), (307, 311, 2, 306), (314, 328, 2, 313),
      (331, 375, 2, 330), (378, 382, 2, 377), (383, 383, 1, 83), (384, 384, 1, 579),
      (387, 389, 2, 386), (392, 392, 1, 391), (396, 396, 1, 395), (402, 402, 1, 401),
      (405, 405, 1, 502), (409, 409, 1, 408), (410, 410, 1, 573), (414, 414, 1, 544),
      (417, 421, 2, 416), (424, 424, 1, 423), (429, 429, 1, 428), (432, 432, 1, 431),
      (436, 438, 2, 435), (441, 441, 1, 440), (445, 445, 1, 444), (447, 447, 1, 503),
      (453, 453, 1, 452), (454, 454, 1, 452), (456, 456, 1, 455), (457, 457, 1, 455),
      (459, 459, 1, 458), (460, 460, 1, 458), (462, 476, 2, 461), (477, 477, 1, 398),
      (479, 495, 2, 478), (498, 498, 1, 497), (499, 499, 1, 497), (501, 501, 1, 500),
      (505, 543, 2, 504), (547, 563, 2, 546), (572, 572, 1, 571), (575, 576, 1, 11390),
      (578, 578, 1, 577), (583, 591, 2, 582), (592, 592, 1, 11375), (593, 593, 1, 11373),
      (594, 594, 1, 11376), (595, 595, 1, 385), (596, 596, 1, 390), (598, 599, 1, 393),
      (601, 601, 1, 399), (603, 603, 1, 400), (604, 604, 1, 42923), (608, 608, 1, 403),
      (609, 609, 1, 42924), (611, 611, 1, 404), (613, 613, 1, 42893), (614, 614, 1, 42922),
      (616, 616, 1, 407), (617, 617, 1, 406), (618, 618, 1, 42926), (619, 619, 1, 11362),
      (620, 620, 1, 42925), (623, 623, 1, 412), (625, 625, 1, 11374), (626, 626, 1, 413),
      (629, 629, 1, 415), (637, 637, 1, 11364), (640, 640, 1, 422), (642, 642, 1, 42949),
      (643, 643, 1, 425), (647, 647, 1, 42929), (648, 648, 1, 430), (649, 649, 1, 580),
      (650, 651, 1, 433), (652, 652, 1, 581), (658, 658, 1, 439), (669, 669, 1, 42930),
      (670, 670, 1, 42928), (837, 837, 1, 921), (881, 883, 2, 880), (887, 887, 1, 886),
      (891, 893, 1, 1021), (940, 940, 1, 902), (941, 943, 1, 904), (945, 961, 1, 913),
      (962, 962, 1, 931), (963, 971, 1, 931), (972, 972, 1, 908), (973, 974, 1, 910),
      (976, 976, 1, 914), (977, 977, 1, 920), (981, 981, 1, 934), (982, 982, 1, 928),
      (983, 983, 1, 975), (985, 1007, 2, 984), (1008, 1008, 1, 922), (1009, 1009, 1, 929),
      (1010, 1010, 1, 1017), (1011, 1011, 1, 895), (1013, 1013, 1, 917), (1016, 1016, 1, 1015),
      (1019, 1019, 1, 1018), (1072, 1103, 1, 1040), (1104, 1119, 1, 1024), (1121, 1153, 2, 1120),
      (1163, 1215, 2, 1162), (1218, 1230, 2, 1217), (1231, 1231, 1, 1216), (1233, 1327, 2, 1232),
      (1377, 1414, 1, 1329), (4304, 4346, 1, 7312), (4349, 4351, 1, 7357), (5112, 5117, 1, 5104),
      (7296, 7296, 1, 1042), (7297, 7297, 1, 1044), (7298, 7298, 1, 1054), (7299, 7300, 1, 1057),
      (7301, 7301, 1, 1058), (7302, 7302, 1, 1066), (7303, 7303, 1, 1122), (7304, 7304, 1, 42570),
      (7545, 7545, 1, 42877), (7549, 7549, 1, 11363), (7566, 7566, 1, 42950), (7681, 7829, 2, 7680),
      (7835, 7835, 1, 7776), (7841, 7935, 2, 7840), (7936, 7943, 1, 7944), (7952, 7957, 1, 7960),
      (7968, 7975, 1, 7976), (7984, 7991, 1, 7992), (8000, 8005, 1, 8008), (8017, 8023, 2, 8025),
      (8032, 8039, 1, 8040), (8048, 8049, 1, 8122), (8050, 8053, 1, 8136), (8054, 8055, 1, 8154),
      (8056, 8057, 1, 8184), (8058, 8059, 1, 8170), (8060, 8061, 1, 8186), (8112, 8113, 1, 8120),
      (8126, 8126, 1, 921), (8144, 8145, 1, 8152), (8160, 8161, 1, 8168), (8165, 8165, 1, 8172),
      (8526, 8526, 1, 8498), (8560, 8575, 1, 8544), (8580, 8580, 1, 8579), (9424, 9449, 1, 9398),
      (11312, 11359, 1, 11264), (11361, 11361, 1, 11360), (11365, 11365, 1, 570), (11366, 11366, 1, 574),
      (11368, 11372, 2, 11367), (11379, 11379, 1, 11378), (11382, 11382, 1, 11381), (11393, 11491, 2, 11392),
      (11500, 11502, 2, 11499), (11507, 11507, 1, 11506), (11520, 11557, 1, 4256), (11559, 11559, 1, 4295),
      (11565, 11565, 1, 4301), (42561, 42605, 2, 42560), (42625, 42651, 2, 42624), (42787, 42799, 2, 42786),
      (42803, 42863, 2, 42802), (42874, 42876, 2, 42873), (42879, 42887, 2, 42878), (42892, 42892, 1, 42891),
      (42897, 42899, 2, 42896), (42900, 42900, 1, 42948), (42903, 42921, 2, 42902), (42933, 42947, 2, 42932),
      (42952, 42954, 2, 42951), (42961, 42961, 1, 42960), (42967, 42969, 2, 42966), (42998, 42998, 1, 42997),
      (43859, 43859, 1, 42931), (43888, 43967, 1, 5024), (65345, 65370, 1, 65313), (66600, 66639, 1, 66560),
      (66776, 66811, 1, 66736), (66967, 66977, 1, 66928), (66979, 66993, 1, 66940), (66995, 67001, 1, 66956),
      (67003, 67004, 1, 66964), (68800, 68850, 1, 68736), (71872, 71903, 1, 71840), (93792, 93823, 1, 93760),
      (125218, 125251, 1, 125184)
     ]"

fun upper_in_ranges :: "(nat \<times> nat \<times> nat \<times> nat) list \<Rightarrow> nat \<Rightarrow> nat option" where
  "upper_in_ranges [] c = None"
| "upper_in_ranges ((lo, hi, step, target) # rows) c =
     (if lo \<le> c then
        (if c \<le> hi then
           (if (c - lo) mod step = 0 then Some (target + (c - lo))
            else upper_in_ranges rows c)
         else upper_in_ranges rows c)
      else upper_in_ranges rows c)"

definition upper_cp :: "nat \<Rightarrow> pystr" where
  "upper_cp c =
     (if c < 128 then (if 97 \<le> c \<and> c \<le> 122 then [c - 32] else [c])
      else (case map_of upper_special c of
              Some u \<Rightarrow> u
            | None \<Rightarrow> (case upper_in_ranges upper_ranges c of
                         Some u \<Rightarrow> [u]
                       | None \<Rightarrow> [c])))"

definition upper :: "pystr \<Rightarrow> pystr" where
  "upper s = concat (map upper_cp s)"

subsection \<open>Other string operations\<close>

text \<open>\<open>s.replace(x, "")\<close> for a one-character \<open>x\<close>.\<close>

definition remove_char :: "nat \<Rightarrow> pystr \<Rightarrow> pystr" where
  "remove_char x s = filter (\<lambda>c. c \<noteq> x) s"

text \<open>\<open>s.split(x)\<close> for a one-character separator: one more part than separators.\<close>

fun split_on :: "nat \<Rightarrow> pystr \<Rightarrow> pystr list" where
  "split_on x [] = [[]]"
| "split_on x (c # cs) =
     (if c = x then [] # split_on x cs
      else (case split_on x cs of
              p # ps \<Rightarrow> (c # p) # ps
            | [] \<Rightarrow> [[c]]))"

text \<open>The slice \<open>s[-2:]\<close>.\<close>

definition last_two :: "pystr \<Rightarrow> pystr" where
  "last_two s = drop (length s - 2) s"

text \<open>Truth value of an optional string: \<open>None\<close> and \<open>""\<close> are false.\<close>

definition truthy :: "pystr option \<Rightarrow> bool" where
  "truthy r = (case r of None \<Rightarrow> False | Some s \<Rightarrow> s \<noteq> [])"

text \<open>A dictionary with one-character keys and values, in insertion order.\<close>

type_synonym char_dict = "(nat \<times> nat) list"

definition dict_keys :: "char_dict \<Rightarrow> nat list" where
  "dict_keys d = map fst d"

definition dict_get :: "char_dict \<Rightarrow> nat \<Rightarrow> py_error + nat" where
  "dict_get d k = (case map_of d k of None \<Rightarrow> Inl (KeyError k) | Some v \<Rightarrow> Inr v)"

section \<open>The two regular expressions\<close>

text \<open>
  The class \<open>[A-Z]\<close> is the range of code points from \<open>A\<close> to \<open>Z\<close>. The class \<open>\d\<close> of
  a pattern on \<open>str\<close> is every Unicode decimal digit (category Nd): \<open>0\<close>-\<open>9\<close> and the
  digits of the other scripts, whose ranges of code points are \<open>decimal_ranges\<close>
  (Unicode 14.0.0).
\<close>

definition is_capital :: "nat \<Rightarrow> bool" where
  "is_capital c = (cp (CHR ''A'') \<le> c \<and> c \<le> cp (CHR ''Z''))"

definition decimal_ranges :: "(nat \<times> nat) list" where
  "decimal_ranges =
     [
      (1632, 1641), (1776, 1785), (1984, 1993), (2406, 2415), (2534, 2543), (2662, 2671),
      (2790, 2799), (2918, 2927), (3046, 3055), (3174, 3183), (3302, 3311), (3430, 3439),
      (3558, 3567), (3664, 3673), (3792, 3801), (3872, 3881), (4160, 4169), (4240, 4249),
      (6112, 6121), (6160, 6169), (6470, 6479), (6608, 6617), (6784, 6793), (6800, 6809),
      (6992, 7001), (7088, 7097), (7232, 7241), (7248, 7257), (42528, 42537), (43216, 43225),
      (43264, 43273), (43472, 43481), (43504, 43513), (43600, 43609), (44016, 44025), (65296, 65305),
      (66720, 66729), (68912, 68921), (69734, 69743), (69872, 69881), (69942, 69951), (70096, 70105),
      (70384, 70393), (70736, 70745), (70864, 70873), (71248, 71257), (71360, 71369), (71472, 71481),
      (71904, 71913), (72016, 72025), (72784, 72793), (73040, 73049), (73120, 73129), (92768, 92777),
      (92864, 92873), (93008, 93017), (120782, 120831), (123200, 123209), (123632, 123641), (125264, 125273),
      (130032, 130041)
     ]"

definition is_decimal :: "nat \<Rightarrow> bool" where
  "is_decimal c =
     (if c < 128 then cp (CHR ''0'') \<le> c \<and> c \<le> cp (CHR ''9'')
      else list_ex (\<lambda>(lo, hi). lo \<le> c \<and> c \<le> hi) decimal_ranges)"

text \<open>
  \<open>re.search(r"([A-Z]{2})(\d{4})", text)\<close>: the leftmost position where two capital
  letters are followed by four digits; the result is the two groups.
\<close>

definition match_plate_here :: "pystr \<Rightarrow> (pystr \<times> pystr) option" where
  "match_plate_here s =
     (if 6 \<le> length s
         \<and> list_all is_capital (take 2 s)
         \<and> list_all is_decimal (take 4 (drop 2 s))
      then Some (take 2 s, take 4 (drop 2 s)) else None)"

fun re_search_plate :: "pystr \<Rightarrow> (pystr \<times> pystr) option" where
  "re_search_plate [] = None"
| "re_search_plate (c # cs) =
     (case match_plate_here (c # cs) of
        Some g \<Rightarrow> Some g
      | None \<Rightarrow> re_search_plate cs)"

text \<open>
  \<open>re.search(r"([A-Z]+)(\d{4})$", text)\<close>: \<open>$\<close> matches at the end of the text and
  also just before a newline that ends it. The four digits are the last four characters
  there, and the leftmost match starts where the run of capital letters before them
  starts.
\<close>

definition re_search_tail :: "pystr \<Rightarrow> (pystr \<times> pystr) option" where
  "re_search_tail s =
     (let t = (if s \<noteq> [] \<and> last s = newline then butlast s else s);
          n = length t;
          digits = drop (n - 4) t;
          run = rev (takeWhile is_capital (rev (take (n - 4) t)))
      in if 4 \<le> n \<and> list_all is_decimal digits \<and> run \<noteq> []
         then Some (run, digits) else None)"

section \<open>util_sl.py\<close>

definition dict_char_to_int :: char_dict where
  "dict_char_to_int =
     [(cp (CHR ''O''), cp (CHR ''0'')), (cp (CHR ''I''), cp (CHR ''1'')), (cp (CHR ''J''), cp (CHR ''3'')),
      (cp (CHR ''A''), cp (CHR ''4'')), (cp (CHR ''G''), cp (CHR ''6'')), (cp (CHR ''S''), cp (CHR ''5''))]"

definition dict_int_to_char :: char_dict where
  "dict_int_to_char =
     [(cp (CHR ''0''), cp (CHR ''O'')), (cp (CHR ''1''), cp (CHR ''I'')), (cp (CHR ''3''), cp (CHR ''J'')),
      (cp (CHR ''4''), cp (CHR ''A'')), (cp (CHR ''6''), cp (CHR ''G'')), (cp (CHR ''5''), cp (CHR ''S''))]"

subsection \<open>extract_plate_format\<close>

definition extract_plate_format :: "pystr \<Rightarrow> pystr option" where
  "extract_plate_format text0 =
     (let text = remove_char hyphen (remove_char space (upper text0)) in
      case re_search_plate text of
        Some (letters, digits) \<Rightarrow> Some (letters @ str ''-'' @ digits)
      | None \<Rightarrow> None)"

subsection \<open>license_complies_format\<close>

definition validate_format :: "pystr \<Rightarrow> pystr \<Rightarrow> bool" where
  "validate_format letters numbers =
     (length letters = 2
      \<and> length numbers = 4
      \<and> list_all (\<lambda>l. l \<in> set ascii_uppercase \<or> l \<in> set (dict_keys dict_int_to_char)) letters
      \<and> list_all (\<lambda>n. n \<in> set decimal_digits \<or> n \<in> set (dict_keys dict_char_to_int)) numbers)"

definition license_complies_format :: "pystr \<Rightarrow> bool" where
  "license_complies_format text0 =
     (let text = remove_char space (upper text0) in
      if hyphen \<in> set text then
        (let parts = split_on hyphen text in
         if length parts = 2 then
           (let p0 = (if 2 < length (parts ! 0) then last_two (parts ! 0) else parts ! 0)
            in validate_format p0 (parts ! 1))
         else False)
      else
        (case re_search_tail text of
           Some (g1, g2) \<Rightarrow> validate_format (last_two g1) g2
         | None \<Rightarrow> False))"

subsection \<open>format_license\<close>

text \<open>The loop over the letter part; \<open>acc\<close> is \<open>formatted_letters\<close>.\<close>

fun format_letters :: "pystr \<Rightarrow> pystr \<Rightarrow> py_error + pystr" where
  "format_letters [] acc = Inr acc"
| "format_letters (char # rest) acc =
     (if char \<in> set (dict_keys dict_char_to_int) then
        (case dict_get dict_char_to_int char of
           Inl e \<Rightarrow> Inl e
         | Inr d \<Rightarrow>
             (case dict_get dict_int_to_char d of
                Inl e \<Rightarrow> Inl e
              | Inr l \<Rightarrow> format_letters rest (acc @ [l])))
      else format_letters rest (acc @ [char]))"

text \<open>
  The loop over the number part; \<open>acc\<close> is \<open>formatted_numbers\<close>. The first branch tests
  the keys of \<open>dict_int_to_char\<close> and then subscripts \<open>dict_char_to_int\<close>.
\<close>

fun format_numbers :: "pystr \<Rightarrow> pystr \<Rightarrow> py_error + pystr" where
  "format_numbers [] acc = Inr acc"
| "format_numbers (char # rest) acc =
     (if char \<in> set (dict_keys dict_int_to_char) then
        (case dict_get dict_char_to_int char of
           Inl e \<Rightarrow> Inl e
         | Inr d \<Rightarrow> format_numbers rest (acc @ [d]))
      else if char \<in> set (dict_keys dict_char_to_int) then
        (case dict_get dict_char_to_int char of
           Inl e \<Rightarrow> Inl e
         | Inr d \<Rightarrow> format_numbers rest (acc @ [d]))
      else format_numbers rest (acc @ [char]))"

definition format_parts :: "pystr \<Rightarrow> pystr \<Rightarrow> py_error + pystr" where
  "format_parts letters numbers =
     (case format_letters letters [] of
        Inl e \<Rightarrow> Inl e
      | Inr formatted_letters \<Rightarrow>
          (case format_numbers numbers [] of
             Inl e \<Rightarrow> Inl e
           | Inr formatted_numbers \<Rightarrow> Inr (formatted_letters @ str ''-'' @ formatted_numbers)))"

text \<open>The body of \<open>if not formatted_text:\<close>.\<close>

definition format_raw_text :: "pystr \<Rightarrow> py_error + pystr" where
  "format_raw_text text0 =
     (let text = remove_char space (upper text0) in
      if hyphen \<in> set text then
        (let parts = split_on hyphen text in
         if length parts = 2 then
           (let letters = (if 2 < length (parts ! 0) then last_two (parts ! 0) else parts ! 0);
                numbers = parts ! 1
            in format_parts letters numbers)
         else Inr text)
      else
        (case re_search_tail text of
           Some (g1, g2) \<Rightarrow> format_parts (last_two g1) g2
         | None \<Rightarrow> Inr text))"

definition format_license :: "pystr \<Rightarrow> py_error + pystr" where
  "format_license text =
     (case extract_plate_format text of
        None \<Rightarrow> format_raw_text text
      | Some formatted_text \<Rightarrow>
          if \<not> truthy (Some formatted_text) then format_raw_text text
          else Inr formatted_text)"

subsection \<open>read_license_plate\<close>

text \<open>
  One OCR detection is a quadrilateral with a pair of text and confidence. The OCR call
  itself is outside the program: its result is the argument of \<open>read_license_plate\<close>,
  a list (or \<open>None\<close>) whose first element is the list of detections (or \<open>None\<close>).
\<close>

type_synonym detection = "(real \<times> real) list \<times> (pystr \<times> real)"

type_synonym plate_reading = "pystr option \<times> real option"

fun read_loop :: "detection list \<Rightarrow> pystr option \<Rightarrow> real \<Rightarrow> py_error + plate_reading" where
  "read_loop [] best_text best_score =
     (if truthy best_text then Inr (best_text, Some best_score) else Inr (None, None))"
| "read_loop ((quad, (text0, score)) # rest) best_text best_score =
     (let text = upper text0;
          extracted_plate = extract_plate_format text
      in if truthy extracted_plate then Inr (extracted_plate, Some score)
         else if license_complies_format text then
           (case format_license text of
              Inl e \<Rightarrow> Inl e
            | Inr formatted_text \<Rightarrow>
                if best_score < score then read_loop rest (Some formatted_text) score
                else read_loop rest best_text best_score)
         else read_loop rest best_text best_score)"

definition read_license_plate :: "detection list option list option \<Rightarrow> py_error + plate_reading" where
  "read_license_plate result =
     (case result of
        None \<Rightarrow> Inr (None, None)
      | Some [] \<Rightarrow> Inr (None, None)
      | Some (None # _) \<Rightarrow> Inr (None, None)
      | Some (Some [] # _) \<Rightarrow> Inr (None, None)
      | Some (Some detections # _) \<Rightarrow> read_loop detections None 0)"

subsection \<open>get_car\<close>

type_synonym plate_box = "real \<times> real \<times> real \<times> real \<times> real \<times> real"

type_synonym vehicle_box = "real \<times> real \<times> real \<times> real \<times> real"

text \<open>The \<open>for j in range(len(vehicle_track_ids))\<close> loop: the index it breaks at.\<close>

fun get_car_scan :: "real \<times> real \<times> real \<times> real \<Rightarrow> vehicle_box list \<Rightarrow> nat \<Rightarrow> nat option" where
  "get_car_scan p [] j = None"
| "get_car_scan (x1, y1, x2, y2) ((xcar1, ycar1, xcar2, ycar2, car_id) # rest) j =
     (if xcar1 < x1 \<and> ycar1 < y1 \<and> x2 < xcar2 \<and> y2 < ycar2 then Some j
      else get_car_scan (x1, y1, x2, y2) rest (Suc j))"

definition get_car :: "plate_box \<Rightarrow> vehicle_box list \<Rightarrow> vehicle_box" where
  "get_car license_plate vehicle_track_ids =
     (case license_plate of (x1, y1, x2, y2, score, class_id) \<Rightarrow>
        (case get_car_scan (x1, y1, x2, y2) vehicle_track_ids 0 of
           Some car_indx \<Rightarrow> vehicle_track_ids ! car_indx
         | None \<Rightarrow> (- 1, - 1, - 1, - 1, - 1)))"

section \<open>Predicates of the specification\<close>

text \<open>
  Strict containment as the specification words it: every edge of the plate box lies
  strictly inside the vehicle box.
\<close>

definition strictly_contains :: "vehicle_box \<Rightarrow> plate_box \<Rightarrow> bool" where
  "strictly_contains v p =
     (case v of (vx1, vy1, vx2, vy2, vid) \<Rightarrow>
      case p of (px1, py1, px2, py2, score, class_id) \<Rightarrow>
        vx1 < px1 \<and> vy1 < py1 \<and> px2 < vx2 \<and> py2 < vy2)"

text \<open>The plate box shares the coordinate of one of its edges with the vehicle box.\<close>

definition touches_edge :: "vehicle_box \<Rightarrow> plate_box \<Rightarrow> bool" where
  "touches_edge v p =
     (case v of (vx1, vy1, vx2, vy2, vid) \<Rightarrow>
      case p of (px1, py1, px2, py2, score, class_id) \<Rightarrow>
        vx1 = px1 \<or> vy1 = py1 \<or> px2 = vx2 \<or> py2 = vy2)"

text \<open>
  Position \<open>i\<close> of a text starts a match of the primary pattern as the program has it:
  two capital letters immediately followed by four characters of the class \<open>\d\<close>.
\<close>

definition plate_at :: "pystr \<Rightarrow> nat \<Rightarrow> bool" where
  "plate_at s i =
     (i + 6 \<le> length s
      \<and> list_all is_capital (take 2 (drop i s))
      \<and> list_all is_decimal (take 4 (drop (i + 2) s)))"

text \<open>
  Position \<open>i\<close> of a text starts a plate as the specification has it, \<open>[A-Z]{2}[0-9]{4}\<close>:
  two capital letters immediately followed by four of the digits \<open>0\<close>-\<open>9\<close>.
\<close>

definition ascii_plate_at :: "pystr \<Rightarrow> nat \<Rightarrow> bool" where
  "ascii_plate_at s i =
     (i + 6 \<le> length s
      \<and> list_all is_capital (take 2 (drop i s))
      \<and> list_all (\<lambda>c. c \<in> set decimal_digits) (take 4 (drop (i + 2) s)))"

text \<open>A decimal digit that is not one of \<open>0\<close>-\<open>9\<close>.\<close>

definition foreign_digit :: "nat \<Rightarrow> bool" where
  "foreign_digit c = (is_decimal c \<and> c \<notin> set decimal_digits)"

text \<open>A character that a plate is made of: a capital letter or one of \<open>0\<close>-\<open>9\<close>.\<close>

definition plate_char :: "nat \<Rightarrow> bool" where
  "plate_char c = (is_capital c \<or> c \<in> set decimal_digits)"

text \<open>The digit form of a character: its image in \<open>dict_char_to_int\<close>, or itself.\<close>

definition digit_form :: "nat \<Rightarrow> nat" where
  "digit_form c = (case map_of dict_char_to_int c of Some d \<Rightarrow> d | None \<Rightarrow> c)"

text \<open>The digits that are keys of \<open>dict_int_to_char\<close>.\<close>

definition raising_digit :: "nat \<Rightarrow> bool" where
  "raising_digit c = (c \<in> set (str ''013465''))"

text \<open>The canonical plate: two capital letters, a hyphen, four of the digits \<open>0\<close>-\<open>9\<close>.\<close>

definition canonical_shape :: "pystr \<Rightarrow> bool" where
  "canonical_shape r =
     (length r = 7
      \<and> list_all is_capital (take 2 r)
      \<and> r ! 2 = hyphen
      \<and> list_all (\<lambda>c. c \<in> set decimal_digits) (drop 3 r))"

text \<open>
  What the program can return: the letter positions are also open to the six digits that
  \<open>license_complies_format\<close> accepts there, and the digit positions to every character
  of the class \<open>\d\<close>.
\<close>

definition returned_shape :: "pystr \<Rightarrow> bool" where
  "returned_shape r =
     (length r = 7
      \<and> list_all (\<lambda>c. c \<in> set ascii_uppercase \<or> c \<in> set (str ''013465'')) (take 2 r)
      \<and> r ! 2 = hyphen
      \<and> list_all is_decimal (drop 3 r))"

text \<open>
  The candidates of the fallback path, in scan order: the normalized text and the
  confidence of every hypothesis that complies with the format.
\<close>

definition candidates :: "detection list \<Rightarrow> (pystr \<times> real) list" where
  "candidates ds =
     concat (map (\<lambda>(quad, (text0, score)).
       if license_complies_format (upper text0) then
         (case format_license (upper text0) of Inr r \<Rightarrow> [(r, score)] | Inl e \<Rightarrow> [])
       else []) ds)"

text \<open>
  The running best as the specification words it: a candidate replaces the current best
  only if its confidence is strictly higher.
\<close>

fun running_best :: "(pystr \<times> real) list \<Rightarrow> pystr option \<times> real \<Rightarrow> pystr option \<times> real" where
  "running_best [] best = best"
| "running_best ((r, s) # cs) (best_text, best_score) =
     (if best_score < s then running_best cs (Some r, s)
      else running_best cs (best_text, best_score))"

definition reading_of :: "pystr option \<times> real \<Rightarrow> plate_reading" where
  "reading_of best = (if truthy (fst best) then (fst best, Some (snd best)) else (None, None))"

text \<open>No hypothesis of the list matches the primary pattern.\<close>

definition no_primary_match :: "detection list \<Rightarrow> bool" where
  "no_primary_match ds = list_all (\<lambda>(quad, (text0, score)). \<not> truthy (extract_plate_format (upper text0))) ds"

text \<open>
  \<open>format_license\<close> raises on no hypothesis of the list that the scan would format.
\<close>

definition formats_without_error :: "detection list \<Rightarrow> bool" where
  "formats_without_error ds =
     list_all (\<lambda>(quad, (text0, score)).
       \<not> truthy (extract_plate_format (upper text0)) \<and> license_complies_format (upper text0)
         \<longrightarrow> (\<exists>r. format_license (upper text0) = Inr r)) ds"

section \<open>The containment matcher\<close>

declare str_def [simp]

lemma get_car_scan_None:
  "get_car_scan (x1, y1, x2, y2) vs j = None \<longleftrightarrow>
     (\<forall>v \<in> set vs. \<not> strictly_contains v (x1, y1, x2, y2, s, c))"
  by (induction vs arbitrary: j) (auto simp: strictly_contains_def split: if_splits)

lemma get_car_scan_Some:
  "get_car_scan (x1, y1, x2, y2) vs j = Some k \<Longrightarrow>
     j \<le> k \<and> k - j < length vs
     \<and> strictly_contains (vs ! (k - j)) (x1, y1, x2, y2, s, c)
     \<and> (\<forall>i < k - j. \<not> strictly_contains (vs ! i) (x1, y1, x2, y2, s, c))"
proof (induction vs arbitrary: j)
  case Nil
  then show ?case by simp
next
  case (Cons v vs)
  obtain a b c' d e where v: "v = (a, b, c', d, e)" by (cases v)
  show ?case
  proof (cases "strictly_contains v (x1, y1, x2, y2, s, c)")
    case True
    with Cons.prems v show ?thesis by (auto simp: strictly_contains_def)
  next
    case False
    with Cons.prems v have "get_car_scan (x1, y1, x2, y2) vs (Suc j) = Some k"
      by (auto simp: strictly_contains_def split: if_splits)
    from Cons.IH [OF this] have ih: "Suc j \<le> k" "k - Suc j < length vs"
      "strictly_contains (vs ! (k - Suc j)) (x1, y1, x2, y2, s, c)"
      "\<forall>i < k - Suc j. \<not> strictly_contains (vs ! i) (x1, y1, x2, y2, s, c)"
      by auto
    from ih(1) have kj: "k - j = Suc (k - Suc j)" by simp
    show ?thesis
      using ih False unfolding kj
      by (auto simp: nth_Cons less_Suc_eq_0_disj split: nat.splits)
  qed
qed

text \<open>
  C6: \<open>get_car\<close> returns the first vehicle box, in list order, that strictly contains
  the plate box on all four sides, and the sentinel \<open>(-1, -1, -1, -1, -1)\<close> when no box
  does; a plate box that only touches an edge of every vehicle box is not contained, so
  the sentinel is returned for it.
\<close>

theorem get_car_first_strict_container:
  "((\<exists>i < length vs.
        strictly_contains (vs ! i) p
      \<and> (\<forall>j < i. \<not> strictly_contains (vs ! j) p)
      \<and> get_car p vs = vs ! i)
    \<or> ((\<forall>v \<in> set vs. \<not> strictly_contains v p) \<and> get_car p vs = (- 1, - 1, - 1, - 1, - 1)))
   \<and> ((\<forall>v \<in> set vs. touches_edge v p) \<longrightarrow> get_car p vs = (- 1, - 1, - 1, - 1, - 1))"
proof -
  obtain x1 y1 x2 y2 s c where p: "p = (x1, y1, x2, y2, s, c)" by (cases p)
  have touch: "\<not> strictly_contains v p" if "touches_edge v p" for v
    using that by (auto simp: strictly_contains_def touches_edge_def p)
  show ?thesis
  proof (cases "get_car_scan (x1, y1, x2, y2) vs 0")
    case None
    then have none: "\<forall>v \<in> set vs. \<not> strictly_contains v p"
      using get_car_scan_None [of x1 y1 x2 y2 vs 0 s c] p by simp
    from None have "get_car p vs = (- 1, - 1, - 1, - 1, - 1)"
      by (simp add: get_car_def p)
    with none show ?thesis by blast
  next
    case (Some k)
    from get_car_scan_Some [OF Some, of s c]
    have k: "k < length vs" "strictly_contains (vs ! k) p"
      "\<forall>i < k. \<not> strictly_contains (vs ! i) p"
      by (auto simp: p)
    from Some have g: "get_car p vs = vs ! k" by (simp add: get_car_def p)
    from k(1,2) have "\<not> (\<forall>v \<in> set vs. touches_edge v p)"
      using touch nth_mem by blast
    with k g show ?thesis by blast
  qed
qed

text \<open>
  The two examples of the specification: the first of two containing boxes wins although
  the second is tighter, and a plate box on the edge of the only vehicle box is not found.
\<close>

theorem get_car_first_strict_container_witness:
  "get_car (10, 10, 20, 20, 0.9, 0) [(0, 0, 30, 30, 1), (5, 5, 25, 25, 2)] = (0, 0, 30, 30, 1)
   \<and> get_car (0, 0, 10, 10, 0.9, 0) [(0, 0, 20, 20, 1)] = (- 1, - 1, - 1, - 1, - 1)"
proof -
  let ?p = "(10, 10, 20, 20, 0.9, 0) :: plate_box"
  let ?vs = "[(0, 0, 30, 30, 1), (5, 5, 25, 25, 2)] :: vehicle_box list"
  have c0: "strictly_contains (?vs ! 0) ?p" by (simp add: strictly_contains_def)
  have "get_car ?p ?vs = ?vs ! 0"
    using get_car_first_strict_container [of ?vs ?p] c0
    by (auto simp: less_Suc_eq_0_disj)
  moreover have "get_car (0, 0, 10, 10, 0.9, 0) [(0, 0, 20, 20, 1)] = (- 1, - 1, - 1, - 1, - 1)"
    using get_car_first_strict_container [of "[(0, 0, 20, 20, 1)]" "(0, 0, 10, 10, 0.9, 0)"]
    by (simp add: touches_edge_def)
  ultimately show ?thesis by simp
qed

section \<open>The confusion tables\<close>



section \<open>Primary extraction\<close>

lemma match_plate_here_iff:
  "match_plate_here s = Some g \<longleftrightarrow> plate_at s 0 \<and> g = (take 2 s, take 4 (drop 2 s))"
  by (auto simp: match_plate_here_def plate_at_def numeral_2_eq_2)

lemma match_plate_here_None: "match_plate_here s = None \<longleftrightarrow> \<not> plate_at s 0"
  by (simp add: match_plate_here_def plate_at_def numeral_2_eq_2)

lemma plate_at_Suc: "plate_at (c # cs) (Suc i) = plate_at cs i"
  by (auto simp: plate_at_def)

lemma re_search_plate_first:
  "plate_at s i \<Longrightarrow> (\<forall>j < i. \<not> plate_at s j) \<Longrightarrow>
     re_search_plate s = Some (take 2 (drop i s), take 4 (drop (i + 2) s))"
proof (induction s arbitrary: i)
  case Nil
  then show ?case by (simp add: plate_at_def)
next
  case (Cons c cs)
  show ?case
  proof (cases i)
    case 0
    with Cons.prems(1) have "match_plate_here (c # cs) = Some (take 2 (c # cs), take 4 (drop 2 (c # cs)))"
      by (simp add: match_plate_here_iff)
    with 0 show ?thesis by simp
  next
    case (Suc k)
    from Cons.prems(1) Suc have k1: "plate_at cs k" by (simp add: plate_at_Suc)
    have k2: "\<forall>j < k. \<not> plate_at cs j"
    proof (intro allI impI)
      fix j assume "j < k"
      then have "Suc j < i" using Suc by simp
      with Cons.prems(2) have "\<not> plate_at (c # cs) (Suc j)" by blast
      then show "\<not> plate_at cs j" by (simp add: plate_at_Suc)
    qed
    from Cons.prems(2) Suc have n0: "\<not> plate_at (c # cs) 0" by blast
    then have "match_plate_here (c # cs) = None" by (simp add: match_plate_here_None)
    with Cons.IH [OF k1 k2] Suc show ?thesis by simp
  qed
qed

lemma re_search_plate_None: "re_search_plate s = None \<longleftrightarrow> (\<forall>i. \<not> plate_at s i)"
proof (induction s)
  case Nil
  then show ?case by (simp add: plate_at_def)
next
  case (Cons c cs)
  show ?case
  proof (cases "plate_at (c # cs) 0")
    case True
    then have "match_plate_here (c # cs) = Some (take 2 (c # cs), take 4 (drop 2 (c # cs)))"
      by (simp add: match_plate_here_iff)
    with True show ?thesis by auto
  next
    case False
    then have "match_plate_here (c # cs) = None" by (simp add: match_plate_here_None)
    then have "re_search_plate (c # cs) = None \<longleftrightarrow> (\<forall>i. \<not> plate_at cs i)"
      using Cons.IH by simp
    also have "\<dots> \<longleftrightarrow> (\<forall>i. \<not> plate_at (c # cs) i)"
    proof
      assume a: "\<forall>i. \<not> plate_at cs i"
      show "\<forall>i. \<not> plate_at (c # cs) i"
      proof
        fix i show "\<not> plate_at (c # cs) i"
          using a False by (cases i) (simp_all add: plate_at_Suc)
      qed
    next
      assume a: "\<forall>i. \<not> plate_at (c # cs) i"
      show "\<forall>i. \<not> plate_at cs i"
      proof
        fix i show "\<not> plate_at cs i" using a [rule_format, of "Suc i"] by (simp add: plate_at_Suc)
      qed
    qed
    finally show ?thesis .
  qed
qed

lemma format_license_of_search:
  "re_search_plate (remove_char hyphen (remove_char space (upper text))) = Some (l, d)
   \<Longrightarrow> format_license text = Inr (l @ str ''-'' @ d)"
  by (simp add: format_license_def extract_plate_format_def truthy_def)

lemma ascii_uppercase_range: "ascii_uppercase = [65..<91]"
  by code_simp

lemma decimal_digits_range: "decimal_digits = [48..<58]"
  by code_simp

lemma capital_iff: "c \<in> set ascii_uppercase \<longleftrightarrow> is_capital c"
proof -
  have "c \<in> set [65..<91] \<longleftrightarrow> 65 \<le> c \<and> c < 91"
    by (simp only: set_upt atLeastLessThan_iff)
  then show ?thesis by (auto simp: ascii_uppercase_range is_capital_def)
qed

lemma ascii_digit_iff: "c \<in> set decimal_digits \<longleftrightarrow> 48 \<le> c \<and> c \<le> 57"
proof -
  have "c \<in> set [48..<58] \<longleftrightarrow> 48 \<le> c \<and> c < 58"
    by (simp only: set_upt atLeastLessThan_iff)
  then show ?thesis by (auto simp: decimal_digits_range)
qed

lemma ascii_digit_is_decimal: "c \<in> set decimal_digits \<Longrightarrow> is_decimal c"
  by (simp add: ascii_digit_iff is_decimal_def)

lemma plate_char_kept:
  "plate_char c \<Longrightarrow> upper_cp c = [c] \<and> c \<noteq> space \<and> c \<noteq> hyphen"
  by (auto simp: plate_char_def is_capital_def ascii_digit_iff upper_cp_def)

lemma dense_plate_chars:
  "list_all plate_char s \<Longrightarrow>
     remove_char hyphen (remove_char space (upper s)) = s"
proof (induction s)
  case Nil
  then show ?case by (simp add: remove_char_def upper_def)
next
  case (Cons c cs)
  then have c: "plate_char c" and cs: "list_all plate_char cs" by simp_all
  from plate_char_kept [OF c] Cons.IH [OF cs] show ?case
    by (simp add: remove_char_def upper_def)
qed

lemma plate_text_chars:
  assumes "length text = 6" "ascii_plate_at text 0"
  shows "list_all plate_char text"
proof -
  have "drop 2 text = take 4 (drop 2 text)" using assms(1) by simp
  then have split: "text = take 2 text @ take 4 (drop 2 text)"
    by (metis append_take_drop_id)
  from assms(2) have "list_all plate_char (take 2 text)" "list_all plate_char (take 4 (drop 2 text))"
    by (auto simp: ascii_plate_at_def plate_char_def list_all_iff numeral_2_eq_2)
  then have "list_all plate_char (take 2 text @ take 4 (drop 2 text))" by simp
  with split show ?thesis by simp
qed

lemma ascii_plate_is_plate: "ascii_plate_at s i \<Longrightarrow> plate_at s i"
  by (auto simp: ascii_plate_at_def plate_at_def list_all_iff ascii_digit_is_decimal)

lemma plate_is_ascii_plate:
  assumes "\<not> list_ex foreign_digit s" "plate_at s i"
  shows "ascii_plate_at s i"
proof -
  have "c \<in> set decimal_digits" if "c \<in> set (take 4 (drop (i + 2) s))" for c
  proof -
    from that have "c \<in> set s" by (meson in_set_dropD in_set_takeD)
    with assms(1) have "\<not> foreign_digit c" by (auto simp: list_ex_iff)
    moreover from that assms(2) have "is_decimal c" by (auto simp: plate_at_def list_all_iff)
    ultimately show ?thesis by (simp add: foreign_digit_def)
  qed
  with assms(2) show ?thesis by (auto simp: ascii_plate_at_def plate_at_def list_all_iff)
qed

lemma upper_cp_ascii:
  "c < 128 \<Longrightarrow> upper_cp c = (if 97 \<le> c \<and> c \<le> 122 then [c - 32] else [c])"
  by (simp add: upper_cp_def)

lemma is_decimal_ascii: "c < 128 \<Longrightarrow> is_decimal c = (48 \<le> c \<and> c \<le> 57)"
  by (simp add: is_decimal_def)

text \<open>
  Upper-casing can create the match: the sharp s, code point 223, becomes \<open>SS\<close>.
\<close>

lemma sharp_s_upper: "upper_cp 223 = str ''SS''"
  by (simp add: upper_cp_def upper_special_def)

lemma format_license_sharp_s_example:
  "format_license (223 # str ''1234AB5678'') = Inr (str ''SS-1234'')
   \<and> format_license (223 # str ''7777'') = Inr (str ''SS-7777'')"
proof -
  have a: "remove_char hyphen (remove_char space (upper (223 # str ''1234AB5678'')))
      = str ''SS1234AB5678''"
    using sharp_s_upper by (simp add: upper_def remove_char_def upper_cp_ascii)
  have b: "remove_char hyphen (remove_char space (upper (223 # str ''7777''))) = str ''SS7777''"
    using sharp_s_upper by (simp add: upper_def remove_char_def upper_cp_ascii)
  have c: "re_search_plate (str ''SS1234AB5678'') = Some (str ''SS'', str ''1234'')"
    by (simp add: match_plate_here_def is_capital_def is_decimal_ascii)
  have d: "re_search_plate (str ''SS7777'') = Some (str ''SS'', str ''7777'')"
    by (simp add: match_plate_here_def is_capital_def is_decimal_ascii)
  from format_license_of_search [of "223 # str ''1234AB5678''" "str ''SS''" "str ''1234''"] a c
  have "format_license (223 # str ''1234AB5678'') = Inr (str ''SS-1234'')" by simp
  moreover from format_license_of_search [of "223 # str ''7777''" "str ''SS''" "str ''7777''"] b d
  have "format_license (223 # str ''7777'') = Inr (str ''SS-7777'')" by simp
  ultimately show ?thesis by simp
qed

lemma arabic_indic_upper:
  "upper_cp 1633 = [1633]" "upper_cp 1634 = [1634]" "upper_cp 1635 = [1635]" "upper_cp 1636 = [1636]"
  by (simp_all add: upper_cp_def upper_special_def upper_ranges_def)

lemma arabic_indic_decimal:
  "is_decimal 1633" "is_decimal 1634" "is_decimal 1635" "is_decimal 1636"
  by (simp_all add: is_decimal_def decimal_ranges_def)

lemma arabic_indic_text:
  "remove_char hyphen (remove_char space
       (upper (str ''AB'' @ [1633, 1634, 1635, 1636] @ str ''CD5678'')))
     = str ''AB'' @ [1633, 1634, 1635, 1636] @ str ''CD5678''"
  by (simp add: upper_def remove_char_def upper_cp_ascii arabic_indic_upper)

lemma arabic_indic_plate:
  "plate_at (str ''AB'' @ [1633, 1634, 1635, 1636] @ str ''CD5678'') 0"
  by (simp add: plate_at_def is_capital_def arabic_indic_decimal)

text \<open>
  C3: when the upper-cased text without spaces and hyphens contains two capital letters
  immediately followed by four digits, \<open>format_license\<close> returns the letters, a hyphen
  and the digits of the first such place, with no substitution from the confusion
  tables. This holds for every text when a digit is any decimal digit, as the class
  \<open>\d\<close> of the program's pattern has it; it holds with the digits \<open>0\<close>-\<open>9\<close> of the
  specification's pattern for every text whose upper-cased form has no other decimal
  digit; and a text that is exactly two capital letters and four of the digits
  \<open>0\<close>-\<open>9\<close> comes back with a hyphen after the letters.
\<close>

theorem format_license_primary_extraction:
  "(plate_at (remove_char hyphen (remove_char space (upper text))) i
      \<and> (\<forall>j < i. \<not> plate_at (remove_char hyphen (remove_char space (upper text))) j)
    \<longrightarrow> format_license text =
          Inr (take 2 (drop i (remove_char hyphen (remove_char space (upper text))))
               @ str ''-''
               @ take 4 (drop (i + 2) (remove_char hyphen (remove_char space (upper text))))))
   \<and> (\<not> list_ex foreign_digit (remove_char hyphen (remove_char space (upper text)))
      \<and> ascii_plate_at (remove_char hyphen (remove_char space (upper text))) i
      \<and> (\<forall>j < i. \<not> ascii_plate_at (remove_char hyphen (remove_char space (upper text))) j)
    \<longrightarrow> format_license text =
          Inr (take 2 (drop i (remove_char hyphen (remove_char space (upper text))))
               @ str ''-''
               @ take 4 (drop (i + 2) (remove_char hyphen (remove_char space (upper text))))))
   \<and> (length text = 6 \<and> ascii_plate_at text 0
    \<longrightarrow> format_license text = Inr (take 2 text @ str ''-'' @ drop 2 text))"
proof (intro conjI impI)
  let ?S = "remove_char hyphen (remove_char space (upper text))"
  assume "plate_at ?S i \<and> (\<forall>j < i. \<not> plate_at ?S j)"
  then have "re_search_plate ?S = Some (take 2 (drop i ?S), take 4 (drop (i + 2) ?S))"
    using re_search_plate_first by blast
  then show "format_license text = Inr (take 2 (drop i ?S) @ str ''-'' @ take 4 (drop (i + 2) ?S))"
    by (rule format_license_of_search)
next
  let ?S = "remove_char hyphen (remove_char space (upper text))"
  assume a: "\<not> list_ex foreign_digit ?S \<and> ascii_plate_at ?S i \<and> (\<forall>j < i. \<not> ascii_plate_at ?S j)"
  then have "plate_at ?S i" using ascii_plate_is_plate by blast
  moreover from a have "\<forall>j < i. \<not> plate_at ?S j" using plate_is_ascii_plate by blast
  ultimately have "re_search_plate ?S = Some (take 2 (drop i ?S), take 4 (drop (i + 2) ?S))"
    using re_search_plate_first by blast
  then show "format_license text = Inr (take 2 (drop i ?S) @ str ''-'' @ take 4 (drop (i + 2) ?S))"
    by (rule format_license_of_search)
next
  let ?S = "remove_char hyphen (remove_char space (upper text))"
  assume a: "length text = 6 \<and> ascii_plate_at text 0"
  then have S: "?S = text" using plate_text_chars dense_plate_chars by blast
  from a have "plate_at text 0" using ascii_plate_is_plate by blast
  then have "re_search_plate text = Some (take 2 (drop 0 text), take 4 (drop (0 + 2) text))"
    by (intro re_search_plate_first) simp_all
  then have "re_search_plate ?S = Some (take 2 text, take 4 (drop 2 text))"
    using S by (simp add: numeral_2_eq_2)
  then have "format_license text = Inr (take 2 text @ str ''-'' @ take 4 (drop 2 text))"
    by (rule format_license_of_search)
  moreover have "take 4 (drop 2 text) = drop 2 text" using a by simp
  ultimately show "format_license text = Inr (take 2 text @ str ''-'' @ drop 2 text)" by simp
qed

text \<open>
  Three runs: a first match made of Arabic-Indic digits, a lower-case text with a
  province code, spaces and a hyphen, and a text that is a plate already.
\<close>

theorem format_license_primary_extraction_witness:
  "format_license (str ''AB'' @ [1633, 1634, 1635, 1636] @ str ''CD5678'')
     = Inr (str ''AB-'' @ [1633, 1634, 1635, 1636])
   \<and> format_license (str ''nw kf-7617 x'') = Inr (str ''KF-7617'')
   \<and> format_license (str ''AB1234'') = Inr (str ''AB-1234'')"
proof -
  let ?t1 = "str ''AB'' @ [1633, 1634, 1635, 1636] @ str ''CD5678''"
  have S1: "remove_char hyphen (remove_char space (upper ?t1)) = ?t1"
    by (rule arabic_indic_text)
  have p1: "plate_at ?t1 0" by (rule arabic_indic_plate)
  have "format_license ?t1 = Inr (take 2 (drop 0 ?t1) @ str ''-'' @ take 4 (drop (0 + 2) ?t1))"
    using format_license_primary_extraction [of ?t1 0] p1 unfolding S1 by blast
  moreover have "take 2 (drop 0 ?t1) @ str ''-'' @ take 4 (drop (0 + 2) ?t1)
      = str ''AB-'' @ [1633, 1634, 1635, 1636]" by simp
  ultimately have a: "format_license ?t1 = Inr (str ''AB-'' @ [1633, 1634, 1635, 1636])"
    by simp
  let ?S = "remove_char hyphen (remove_char space (upper (str ''nw kf-7617 x'')))"
  have S: "?S = str ''NWKF7617X''" by code_simp
  have f: "\<not> list_ex foreign_digit (str ''NWKF7617X'')" by code_simp
  have p2: "ascii_plate_at (str ''NWKF7617X'') 2" by code_simp
  have n: "\<forall>j < 2. \<not> ascii_plate_at (str ''NWKF7617X'') j"
  proof (intro allI impI)
    fix j :: nat assume "j < 2"
    then have "j = 0 \<or> j = 1" by auto
    moreover have "\<not> ascii_plate_at (str ''NWKF7617X'') 0" by code_simp
    moreover have "\<not> ascii_plate_at (str ''NWKF7617X'') 1" by code_simp
    ultimately show "\<not> ascii_plate_at (str ''NWKF7617X'') j" by auto
  qed
  have "format_license (str ''nw kf-7617 x'')
      = Inr (take 2 (drop 2 (str ''NWKF7617X'')) @ str ''-'' @ take 4 (drop (2 + 2) (str ''NWKF7617X'')))"
    using format_license_primary_extraction [of "str ''nw kf-7617 x''" 2] f p2 n unfolding S
    by blast
  moreover have "take 2 (drop 2 (str ''NWKF7617X'')) @ str ''-'' @ take 4 (drop (2 + 2) (str ''NWKF7617X''))
      = str ''KF-7617''" by code_simp
  ultimately have b: "format_license (str ''nw kf-7617 x'') = Inr (str ''KF-7617'')" by simp
  have "length (str ''AB1234'') = 6" by (simp add: str_def)
  moreover have "ascii_plate_at (str ''AB1234'') 0" by code_simp
  ultimately have "format_license (str ''AB1234'')
      = Inr (take 2 (str ''AB1234'') @ str ''-'' @ drop 2 (str ''AB1234''))"
    using format_license_primary_extraction [of "str ''AB1234''" 0] by blast
  moreover have "take 2 (str ''AB1234'') @ str ''-'' @ drop 2 (str ''AB1234'') = str ''AB-1234''"
    by code_simp
  ultimately have c: "format_license (str ''AB1234'') = Inr (str ''AB-1234'')" by simp
  from a b c show ?thesis by simp
qed

text \<open>
  The claim with the digits \<open>0\<close>-\<open>9\<close> of the specification's pattern fails on a text
  whose first match of the program's pattern has other decimal digits: in
  \<open>AB\<close>, four Arabic-Indic digits, \<open>CD5678\<close> the first place with two capital letters
  and four of \<open>0\<close>-\<open>9\<close> is \<open>CD5678\<close>, at position 6, and \<open>format_license\<close> returns the
  letters \<open>AB\<close> with the Arabic-Indic digits.
\<close>

theorem format_license_primary_extraction_counterexample:
  "remove_char hyphen (remove_char space
       (upper (str ''AB'' @ [1633, 1634, 1635, 1636] @ str ''CD5678'')))
     = str ''AB'' @ [1633, 1634, 1635, 1636] @ str ''CD5678''
   \<and> ascii_plate_at (str ''AB'' @ [1633, 1634, 1635, 1636] @ str ''CD5678'') 6
   \<and> list_all (\<lambda>j. \<not> ascii_plate_at (str ''AB'' @ [1633, 1634, 1635, 1636] @ str ''CD5678'') j) [0..<6]
   \<and> take 2 (drop 6 (str ''AB'' @ [1633, 1634, 1635, 1636] @ str ''CD5678''))
       @ str ''-''
       @ take 4 (drop (6 + 2) (str ''AB'' @ [1633, 1634, 1635, 1636] @ str ''CD5678''))
     = str ''CD-5678''
   \<and> format_license (str ''AB'' @ [1633, 1634, 1635, 1636] @ str ''CD5678'')
     = Inr (str ''AB-'' @ [1633, 1634, 1635, 1636])
   \<and> format_license (str ''AB'' @ [1633, 1634, 1635, 1636] @ str ''CD5678'')
     \<noteq> Inr (str ''CD-5678'')"
proof -
  let ?t = "str ''AB'' @ [1633, 1634, 1635, 1636] @ str ''CD5678''"
  have found: "re_search_plate ?t = Some (str ''AB'', [1633, 1634, 1635, 1636])"
    by (simp add: match_plate_here_def is_capital_def arabic_indic_decimal)
  have dense: "remove_char hyphen (remove_char space (upper ?t)) = ?t"
    by (rule arabic_indic_text)
  have result: "format_license ?t = Inr (str ''AB-'' @ [1633, 1634, 1635, 1636])"
    using format_license_of_search [of ?t "str ''AB''" "[1633, 1634, 1635, 1636]"] found
    unfolding dense by simp
  have at6: "ascii_plate_at ?t 6"
    by (simp add: ascii_plate_at_def is_capital_def decimal_digits_def)
  have upto: "[0..<6] = [0, 1, 2, 3, 4, 5 :: nat]" by code_simp
  have before: "list_all (\<lambda>j. \<not> ascii_plate_at ?t j) [0..<6]"
    unfolding upto list.pred_inject
    by (simp add: ascii_plate_at_def is_capital_def decimal_digits_def)
  have window: "take 2 (drop 6 ?t) @ str ''-'' @ take 4 (drop (6 + 2) ?t) = str ''CD-5678''"
    by simp
  from dense at6 before window result show ?thesis by simp
qed

section \<open>The two formatting loops\<close>

lemma format_letters_unchanged: "format_letters letters acc = Inr (acc @ letters)"
proof (induction letters arbitrary: acc)
  case Nil
  show ?case by simp
next
  case (Cons c cs)
  have step: "c \<in> set (dict_keys dict_char_to_int) \<Longrightarrow>
      \<exists>d. dict_get dict_char_to_int c = Inr d \<and> dict_get dict_int_to_char d = Inr c"
    by (auto simp: dict_keys_def dict_get_def dict_char_to_int_def dict_int_to_char_def)
  show ?case
  proof (cases "c \<in> set (dict_keys dict_char_to_int)")
    case True
    from step [OF True] obtain d where "dict_get dict_char_to_int c = Inr d"
      "dict_get dict_int_to_char d = Inr c" by blast
    with True Cons.IH show ?thesis by simp
  next
    case False
    with Cons.IH show ?thesis by simp
  qed
qed

lemma digit_key_lookup_fails:
  "raising_digit c \<longleftrightarrow> c \<in> set (dict_keys dict_int_to_char)"
  by (simp add: raising_digit_def dict_keys_def dict_int_to_char_def)

lemma digit_key_raises:
  "raising_digit c \<Longrightarrow> dict_get dict_char_to_int c = Inl (KeyError c)"
  by (auto simp: raising_digit_def dict_get_def dict_char_to_int_def)

lemma letter_key_lookup:
  "c \<in> set (dict_keys dict_char_to_int) \<Longrightarrow> dict_get dict_char_to_int c = Inr (digit_form c)"
  by (auto simp: dict_keys_def dict_get_def dict_char_to_int_def digit_form_def)

lemma not_key_digit_form:
  "c \<notin> set (dict_keys dict_char_to_int) \<Longrightarrow> digit_form c = c"
proof -
  assume "c \<notin> set (dict_keys dict_char_to_int)"
  then have "map_of dict_char_to_int c = None"
    by (simp add: map_of_eq_None_iff dict_keys_def)
  then show ?thesis by (simp add: digit_form_def)
qed

lemma format_numbers_step:
  "format_numbers (c # rest) acc =
     (if raising_digit c then Inl (KeyError c) else format_numbers rest (acc @ [digit_form c]))"
  using digit_key_raises [of c] letter_key_lookup [of c] not_key_digit_form [of c]
  by (simp add: digit_key_lookup_fails)

lemma format_numbers_ok:
  "\<not> list_ex raising_digit numbers \<Longrightarrow>
     format_numbers numbers acc = Inr (acc @ map digit_form numbers)"
proof (induction numbers arbitrary: acc)
  case Nil
  show ?case by simp
next
  case (Cons c cs)
  then have "\<not> raising_digit c" "\<not> list_ex raising_digit cs" by simp_all
  with Cons.IH [of "acc @ [digit_form c]"] show ?case
    by (simp only: format_numbers_step) simp
qed

lemma format_numbers_raises:
  "list_ex raising_digit numbers \<Longrightarrow>
     \<exists>c \<in> set numbers. raising_digit c \<and> format_numbers numbers acc = Inl (KeyError c)"
proof (induction numbers arbitrary: acc)
  case Nil
  then show ?case by simp
next
  case (Cons c cs)
  show ?case
  proof (cases "raising_digit c")
    case True
    then show ?thesis by (simp only: format_numbers_step) simp
  next
    case False
    with Cons.prems have "list_ex raising_digit cs" by simp
    from Cons.IH [OF this, of "acc @ [digit_form c]"] False show ?thesis
      by (simp only: format_numbers_step) auto
  qed
qed

lemma format_parts_ok:
  "\<not> list_ex raising_digit numbers \<Longrightarrow>
     format_parts letters numbers = Inr (letters @ str ''-'' @ map digit_form numbers)"
  by (simp add: format_parts_def format_letters_unchanged format_numbers_ok)

lemma format_parts_raises:
  "list_ex raising_digit numbers \<Longrightarrow>
     \<exists>c \<in> set numbers. raising_digit c \<and> format_parts letters numbers = Inl (KeyError c)"
  using format_numbers_raises [of numbers "[]"]
  by (auto simp: format_parts_def format_letters_unchanged)

section \<open>The shape of a returned plate\<close>

lemma complies_parse:
  "license_complies_format t \<Longrightarrow>
     \<exists>l n. validate_format l n \<and> format_raw_text t = format_parts l n"
  unfolding license_complies_format_def format_raw_text_def Let_def
  by (auto split: if_splits option.splits)

lemma format_license_fallback:
  "\<not> truthy (extract_plate_format t) \<Longrightarrow> format_license t = format_raw_text t"
  by (cases "extract_plate_format t") (auto simp: format_license_def)

lemma digit_form_digit:
  "c \<in> set decimal_digits \<or> c \<in> set (dict_keys dict_char_to_int) \<Longrightarrow>
     digit_form c \<in> set decimal_digits"
  unfolding decimal_digits_def dict_keys_def dict_char_to_int_def digit_form_def by auto

lemma shape_of_parts:
  assumes "length l = 2" "length d = 4"
  shows "take 2 (l @ str ''-'' @ d) = l" "(l @ str ''-'' @ d) ! 2 = hyphen"
    "drop 3 (l @ str ''-'' @ d) = d" "length (l @ str ''-'' @ d) = 7"
  using assms by (simp_all add: nth_append)

lemma validated_parts_shape:
  assumes v: "validate_format l n" and r: "format_parts l n = Inr r"
  shows "returned_shape r"
proof -
  from v have len: "length l = 2" "length n = 4"
    and ls: "list_all (\<lambda>c. c \<in> set ascii_uppercase \<or> c \<in> set (dict_keys dict_int_to_char)) l"
    and ns: "list_all (\<lambda>c. c \<in> set decimal_digits \<or> c \<in> set (dict_keys dict_char_to_int)) n"
    by (simp_all add: validate_format_def)
  have nr: "\<not> list_ex raising_digit n"
  proof
    assume "list_ex raising_digit n"
    from format_parts_raises [OF this, of l] r show False by auto
  qed
  from format_parts_ok [OF nr, of l] r have req: "r = l @ str ''-'' @ map digit_form n" by simp
  have keys: "dict_keys dict_int_to_char = str ''013465''"
    by (simp add: dict_keys_def dict_int_to_char_def)
  from ls have ls': "list_all (\<lambda>c. c \<in> set ascii_uppercase \<or> c \<in> set (str ''013465'')) l"
    unfolding keys .
  from ns have ds: "list_all is_decimal (map digit_form n)"
    using digit_form_digit ascii_digit_is_decimal by (auto simp: list_all_iff)
  have len': "length (map digit_form n) = 4" using len by simp
  show ?thesis
    unfolding returned_shape_def req
    using shape_of_parts [OF len(1) len'] ls' ds by simp
qed

lemma re_search_plate_shape:
  "re_search_plate s = Some (l, d) \<Longrightarrow>
     length l = 2 \<and> length d = 4
     \<and> list_all is_capital l \<and> list_all is_decimal d"
proof (induction s)
  case Nil
  then show ?case by simp
next
  case (Cons c cs)
  show ?case
  proof (cases "match_plate_here (c # cs)")
    case None
    with Cons show ?thesis by simp
  next
    case (Some g)
    with Cons.prems have g: "g = (l, d)" by simp
    from Some [unfolded g] show ?thesis
      by (auto simp: match_plate_here_def split: if_splits)
  qed
qed

lemma extract_plate_format_shape:
  assumes "extract_plate_format t = Some r"
  shows "returned_shape r"
proof -
  from assms obtain l d where
    s: "re_search_plate (remove_char hyphen (remove_char space (upper t))) = Some (l, d)"
    and r: "r = l @ str ''-'' @ d"
    by (auto simp: extract_plate_format_def split: option.splits)
  from re_search_plate_shape [OF s] have len: "length l = 2" "length d = 4"
    and ls: "list_all is_capital l"
    and ds: "list_all is_decimal d" by simp_all
  from ls have ls': "list_all (\<lambda>c. c \<in> set ascii_uppercase \<or> c \<in> set (str ''013465'')) l"
    by (auto simp: list_all_iff capital_iff)
  show ?thesis
    unfolding returned_shape_def r
    using shape_of_parts [OF len] ls' ds by simp
qed

lemma read_loop_shape:
  "read_loop ds bt bs = Inr (Some r, c) \<Longrightarrow> (\<forall>b. bt = Some b \<longrightarrow> returned_shape b) \<Longrightarrow>
     returned_shape r"
proof (induction ds bt bs rule: read_loop.induct)
  case (1 best_text best_score)
  then show ?case by (auto split: if_splits)
next
  case (2 quad text0 score rest best_text best_score)
  let ?t = "upper text0"
  show ?case
  proof (cases "truthy (extract_plate_format ?t)")
    case True
    with "2.prems"(1) have "extract_plate_format ?t = Some r" by simp
    then show ?thesis using extract_plate_format_shape by blast
  next
    case nt: False
    show ?thesis
    proof (cases "license_complies_format ?t")
      case False
      with nt "2.prems" "2.IH"(3) show ?thesis by simp
    next
      case True
      from complies_parse [OF True] obtain l n where
        v: "validate_format l n" and p: "format_raw_text ?t = format_parts l n" by blast
      show ?thesis
      proof (cases "format_license ?t")
        case (Inl e)
        with nt True "2.prems"(1) show ?thesis by simp
      next
        case (Inr ft)
        with format_license_fallback [OF nt] p have "format_parts l n = Inr ft" by simp
        from validated_parts_shape [OF v this] have ft: "returned_shape ft" .
        show ?thesis
        proof (cases "best_score < score")
          case True
          with nt \<open>license_complies_format ?t\<close> Inr "2.prems"(1)
          have "read_loop rest (Some ft) score = Inr (Some r, c)" by simp
          with "2.IH"(1) [OF refl refl nt \<open>license_complies_format ?t\<close> Inr True] ft
          show ?thesis by simp
        next
          case False
          with nt \<open>license_complies_format ?t\<close> Inr "2.prems"(1)
          have "read_loop rest best_text best_score = Inr (Some r, c)" by simp
          with "2.IH"(2) [OF refl refl nt \<open>license_complies_format ?t\<close> Inr False] "2.prems"(2)
          show ?thesis by simp
        qed
      qed
    qed
  qed
qed

lemma read_license_plate_shape:
  "read_license_plate result = Inr (Some r, c) \<Longrightarrow> returned_shape r"
  unfolding read_license_plate_def
  by (auto split: option.splits list.splits dest: read_loop_shape)

section \<open>The scan over the hypotheses\<close>

lemma read_loop_short_circuit:
  assumes "no_primary_match pre" "formats_without_error pre"
    and "truthy (extract_plate_format (upper t))"
  shows "read_loop (pre @ (q, (t, s)) # post) bt bs = Inr (extract_plate_format (upper t), Some s)"
  using assms(1,2)
proof (induction pre arbitrary: bt bs)
  case Nil
  from assms(3) show ?case by simp
next
  case (Cons h pre)
  obtain q' t' s' where h: "h = (q', (t', s'))" by (cases h) auto
  from Cons.prems h have nt: "\<not> truthy (extract_plate_format (upper t'))"
    and ok: "license_complies_format (upper t') \<Longrightarrow> \<exists>r. format_license (upper t') = Inr r"
    and rest: "no_primary_match pre" "formats_without_error pre"
    by (auto simp: no_primary_match_def formats_without_error_def)
  show ?case
  proof (cases "license_complies_format (upper t')")
    case False
    with nt h Cons.IH [OF rest] show ?thesis by simp
  next
    case True
    from ok [OF True] obtain r where "format_license (upper t') = Inr r" by blast
    with True nt h Cons.IH [OF rest] show ?thesis by simp
  qed
qed

lemma read_loop_running_best:
  assumes "no_primary_match ds" "formats_without_error ds"
  shows "read_loop ds bt bs = Inr (reading_of (running_best (candidates ds) (bt, bs)))"
  using assms
proof (induction ds arbitrary: bt bs)
  case Nil
  show ?case by (simp add: candidates_def reading_of_def)
next
  case (Cons h ds)
  obtain q' t' s' where h: "h = (q', (t', s'))" by (cases h) auto
  from Cons.prems h have nt: "\<not> truthy (extract_plate_format (upper t'))"
    and ok: "license_complies_format (upper t') \<Longrightarrow> \<exists>r. format_license (upper t') = Inr r"
    and rest: "no_primary_match ds" "formats_without_error ds"
    by (auto simp: no_primary_match_def formats_without_error_def)
  show ?case
  proof (cases "license_complies_format (upper t')")
    case False
    then have "candidates (h # ds) = candidates ds" by (simp add: candidates_def h)
    with False nt h Cons.IH [OF rest] show ?thesis by simp
  next
    case True
    from ok [OF True] obtain r where r: "format_license (upper t') = Inr r" by blast
    with True have "candidates (h # ds) = (r, s') # candidates ds"
      by (simp add: candidates_def h)
    with True r nt h Cons.IH [OF rest] show ?thesis by simp
  qed
qed

lemma running_best_cases:
  "running_best cs (bt, bs) = (bt, bs) \<and> (\<forall>j < length cs. snd (cs ! j) \<le> bs)
   \<or> (\<exists>i < length cs.
         running_best cs (bt, bs) = (Some (fst (cs ! i)), snd (cs ! i))
       \<and> bs < snd (cs ! i)
       \<and> (\<forall>j < length cs. snd (cs ! j) \<le> snd (cs ! i))
       \<and> (\<forall>j < i. snd (cs ! j) < snd (cs ! i)))"
proof (induction cs arbitrary: bt bs)
  case Nil
  show ?case by simp
next
  case (Cons c cs)
  obtain r s where c: "c = (r, s)" by (cases c)
  show ?case
  proof (cases "bs < s")
    case True
    then have step: "running_best (c # cs) (bt, bs) = running_best cs (Some r, s)"
      by (simp add: c)
    from Cons.IH [of "Some r" s] show ?thesis
    proof (elim disjE conjE exE)
      assume a: "running_best cs (Some r, s) = (Some r, s)" "\<forall>j < length cs. snd (cs ! j) \<le> s"
      have "\<forall>j < length (c # cs). snd ((c # cs) ! j) \<le> snd ((c # cs) ! 0)"
      proof (intro allI impI)
        fix j assume "j < length (c # cs)"
        then show "snd ((c # cs) ! j) \<le> snd ((c # cs) ! 0)"
          using a(2) by (cases j) (simp_all add: c)
      qed
      moreover have "running_best (c # cs) (bt, bs) = (Some (fst ((c # cs) ! 0)), snd ((c # cs) ! 0))"
        using step a(1) by (simp add: c)
      moreover have "bs < snd ((c # cs) ! 0)" using True by (simp add: c)
      ultimately show ?thesis by (intro disjI2 exI [of _ 0]) simp
    next
      fix i
      assume i: "i < length cs"
        and a: "running_best cs (Some r, s) = (Some (fst (cs ! i)), snd (cs ! i))"
        "s < snd (cs ! i)" "\<forall>j < length cs. snd (cs ! j) \<le> snd (cs ! i)"
        "\<forall>j < i. snd (cs ! j) < snd (cs ! i)"
      have "\<forall>j < length (c # cs). snd ((c # cs) ! j) \<le> snd ((c # cs) ! Suc i)"
      proof (intro allI impI)
        fix j assume "j < length (c # cs)"
        then show "snd ((c # cs) ! j) \<le> snd ((c # cs) ! Suc i)"
          using a(2,3) by (cases j) (simp_all add: c)
      qed
      moreover have "\<forall>j < Suc i. snd ((c # cs) ! j) < snd ((c # cs) ! Suc i)"
      proof (intro allI impI)
        fix j assume "j < Suc i"
        then show "snd ((c # cs) ! j) < snd ((c # cs) ! Suc i)"
          using a(2,4) by (cases j) (simp_all add: c)
      qed
      moreover have "running_best (c # cs) (bt, bs) = (Some (fst ((c # cs) ! Suc i)), snd ((c # cs) ! Suc i))"
        using step a(1) by simp
      moreover have "bs < snd ((c # cs) ! Suc i)" using True a(2) by simp
      moreover have "Suc i < length (c # cs)" using i by simp
      ultimately show ?thesis by blast
    qed
  next
    case False
    then have step: "running_best (c # cs) (bt, bs) = running_best cs (bt, bs)"
      by (simp add: c)
    from Cons.IH [of bt bs] show ?thesis
    proof (elim disjE conjE exE)
      assume a: "running_best cs (bt, bs) = (bt, bs)" "\<forall>j < length cs. snd (cs ! j) \<le> bs"
      have "\<forall>j < length (c # cs). snd ((c # cs) ! j) \<le> bs"
      proof (intro allI impI)
        fix j assume "j < length (c # cs)"
        then show "snd ((c # cs) ! j) \<le> bs"
          using a(2) False by (cases j) (simp_all add: c)
      qed
      with step a(1) show ?thesis by simp
    next
      fix i
      assume i: "i < length cs"
        and a: "running_best cs (bt, bs) = (Some (fst (cs ! i)), snd (cs ! i))"
        "bs < snd (cs ! i)" "\<forall>j < length cs. snd (cs ! j) \<le> snd (cs ! i)"
        "\<forall>j < i. snd (cs ! j) < snd (cs ! i)"
      have "\<forall>j < length (c # cs). snd ((c # cs) ! j) \<le> snd ((c # cs) ! Suc i)"
      proof (intro allI impI)
        fix j assume "j < length (c # cs)"
        then show "snd ((c # cs) ! j) \<le> snd ((c # cs) ! Suc i)"
          using a(2,3) False by (cases j) (simp_all add: c)
      qed
      moreover have "\<forall>j < Suc i. snd ((c # cs) ! j) < snd ((c # cs) ! Suc i)"
      proof (intro allI impI)
        fix j assume "j < Suc i"
        then show "snd ((c # cs) ! j) < snd ((c # cs) ! Suc i)"
          using a(2,4) False by (cases j) (simp_all add: c)
      qed
      moreover have "running_best (c # cs) (bt, bs) = (Some (fst ((c # cs) ! Suc i)), snd ((c # cs) ! Suc i))"
        using step a(1) by simp
      moreover have "bs < snd ((c # cs) ! Suc i)" using a(2) by simp
      moreover have "Suc i < length (c # cs)" using i by simp
      ultimately show ?thesis by blast
    qed
  qed
qed

lemma read_license_plate_loop:
  "read_license_plate (Some (Some ds # more)) = read_loop ds None 0"
  by (cases ds) (simp_all add: read_license_plate_def truthy_def)

lemma returned_shape_nonempty: "returned_shape r \<Longrightarrow> r \<noteq> []"
  by (auto simp: returned_shape_def)

lemma complying_format_shape:
  assumes "license_complies_format t" "format_license t = Inr r"
  shows "returned_shape r"
proof (cases "truthy (extract_plate_format t)")
  case True
  then obtain ft where ft: "extract_plate_format t = Some ft"
    by (cases "extract_plate_format t") (auto simp: truthy_def)
  with True assms(2) have "r = ft" by (simp add: format_license_def)
  with ft show ?thesis using extract_plate_format_shape by blast
next
  case False
  from complies_parse [OF assms(1)] obtain l n where
    v: "validate_format l n" and p: "format_raw_text t = format_parts l n" by blast
  from format_license_fallback [OF False] p assms(2) have "format_parts l n = Inr r" by simp
  from validated_parts_shape [OF v this] show ?thesis .
qed

lemma candidates_shape: "(r, s) \<in> set (candidates ds) \<Longrightarrow> returned_shape r"
proof (induction ds)
  case Nil
  then show ?case by (simp add: candidates_def)
next
  case (Cons h ds)
  obtain q' t' s' where h: "h = (q', (t', s'))" by (cases h) auto
  show ?case
  proof (cases "license_complies_format (upper t')")
    case False
    then have "candidates (h # ds) = candidates ds" by (simp add: candidates_def h)
    with Cons show ?thesis by simp
  next
    case True
    show ?thesis
    proof (cases "format_license (upper t')")
      case (Inl e)
      with True have "candidates (h # ds) = candidates ds" by (simp add: candidates_def h)
      with Cons show ?thesis by simp
    next
      case (Inr r')
      with True have "candidates (h # ds) = (r', s') # candidates ds"
        by (simp add: candidates_def h)
      with Cons complying_format_shape [OF True Inr] show ?thesis by auto
    qed
  qed
qed

text \<open>
  The short-circuit of the scan: when no earlier hypothesis matches the primary pattern
  and \<open>format_license\<close> raises on none of the earlier complying ones, the first
  hypothesis matching the primary pattern is returned with its own confidence, whatever
  follows it and whatever the confidences are.
\<close>

theorem read_license_plate_short_circuit:
  assumes "no_primary_match pre" "formats_without_error pre"
    and "truthy (extract_plate_format (upper t))"
  shows "read_license_plate (Some (Some (pre @ (q, (t, s)) # post) # more))
           = Inr (extract_plate_format (upper t), Some s)"
  using read_loop_short_circuit [OF assms] by (simp only: read_license_plate_loop)

lemma read_license_plate_short_circuit_example:
  "read_license_plate
     (Some [Some [([], (str ''KF-O777'', 4 / 10)), ([], (str ''ab1234'', 9 / 10)), ([], (str ''XX9999'', 1))]])
     = Inr (Some (str ''AB-1234''), Some (9 / 10))"
proof -
  have a: "no_primary_match [([], (str ''KF-O777'', 4 / 10))]" by code_simp
  have b: "formats_without_error [([], (str ''KF-O777'', 4 / 10))]"
  proof -
    have "format_license (upper (str ''KF-O777'')) = Inr (str ''KF-0777'')" by code_simp
    then show ?thesis by (simp add: formats_without_error_def)
  qed
  have c: "extract_plate_format (upper (str ''ab1234'')) = Some (str ''AB-1234'')" by code_simp
  then have d: "truthy (extract_plate_format (upper (str ''ab1234'')))" by (simp add: truthy_def)
  from read_license_plate_short_circuit [OF a b d, of "[]" "9 / 10" "[([], (str ''XX9999'', 1))]" "[]"] c
  show ?thesis by simp
qed

text \<open>
  The fallback reduction: when no hypothesis matches the primary pattern and
  \<open>format_license\<close> raises on none of the complying ones, the result is (absent, absent)
  if no candidate has a confidence above 0, and otherwise the first candidate of the
  highest confidence, in its normalized form, with that confidence.
\<close>

theorem read_license_plate_best_candidate:
  assumes "no_primary_match ds" "formats_without_error ds"
  shows "(read_license_plate (Some (Some ds # more)) = Inr (None, None)
            \<and> (\<forall>j < length (candidates ds). snd (candidates ds ! j) \<le> 0))
         \<or> (\<exists>i < length (candidates ds).
               read_license_plate (Some (Some ds # more))
                 = Inr (Some (fst (candidates ds ! i)), Some (snd (candidates ds ! i)))
             \<and> 0 < snd (candidates ds ! i)
             \<and> (\<forall>j < length (candidates ds). snd (candidates ds ! j) \<le> snd (candidates ds ! i))
             \<and> (\<forall>j < i. snd (candidates ds ! j) < snd (candidates ds ! i)))"
proof -
  let ?cs = "candidates ds"
  have loop: "read_license_plate (Some (Some ds # more))
                = Inr (reading_of (running_best ?cs (None, 0)))"
    using read_loop_running_best [OF assms] by (simp only: read_license_plate_loop)
  from running_best_cases [of ?cs None 0] show ?thesis
  proof (elim disjE conjE exE)
    assume "running_best ?cs (None, 0) = (None, 0)" "\<forall>j < length ?cs. snd (?cs ! j) \<le> 0"
    with loop show ?thesis by (simp add: reading_of_def truthy_def)
  next
    fix i
    assume i: "i < length ?cs"
      and a: "running_best ?cs (None, 0) = (Some (fst (?cs ! i)), snd (?cs ! i))"
      "0 < snd (?cs ! i)" "\<forall>j < length ?cs. snd (?cs ! j) \<le> snd (?cs ! i)"
      "\<forall>j < i. snd (?cs ! j) < snd (?cs ! i)"
    from i have "(fst (?cs ! i), snd (?cs ! i)) \<in> set ?cs" by simp
    then have "fst (?cs ! i) \<noteq> []" using candidates_shape returned_shape_nonempty by blast
    with loop a(1) have "read_license_plate (Some (Some ds # more))
        = Inr (Some (fst (?cs ! i)), Some (snd (?cs ! i)))"
      by (simp add: reading_of_def truthy_def)
    with i a(2,3,4) show ?thesis by blast
  qed
qed

text \<open>
  Two runs of the fallback reduction: of two candidates with the same highest confidence
  the earlier one is returned, and a single candidate of confidence 0 is not returned.
\<close>

lemma read_license_plate_best_candidate_example:
  "read_license_plate
     (Some [Some [([], (str ''KF-O777'', 4 / 10)), ([], (str ''KF-O787'', 8 / 10)), ([], (str ''KF-O797'', 8 / 10))]])
     = Inr (Some (str ''KF-0787''), Some (8 / 10))
   \<and> read_license_plate (Some [Some [([], (str ''KF-O777'', 0))]]) = Inr (None, None)"
  by code_simp

text \<open>
  What \<open>format_license\<close> can raise: only \<open>KeyError\<close>, only on one of the six digits that are
  keys of \<open>dict_int_to_char\<close>, and only when the primary pattern does not match.
\<close>

lemma format_parts_error:
  "format_parts l n = Inl e \<Longrightarrow> \<exists>c \<in> set n. raising_digit c \<and> e = KeyError c"
proof (cases "list_ex raising_digit n")
  case True
  assume "format_parts l n = Inl e"
  with format_parts_raises [OF True, of l] show ?thesis by auto
next
  case False
  assume "format_parts l n = Inl e"
  with format_parts_ok [OF False, of l] show ?thesis by simp
qed

theorem format_license_error:
  assumes "format_license text = Inl e"
  shows "(\<exists>c. raising_digit c \<and> e = KeyError c) \<and> extract_plate_format text = None"
proof -
  have none: "extract_plate_format text = None"
  proof (cases "extract_plate_format text")
    case None then show ?thesis .
  next
    case (Some ft)
    then have "returned_shape ft" by (rule extract_plate_format_shape)
    then have "ft \<noteq> []" by (rule returned_shape_nonempty)
    with Some assms show ?thesis by (simp add: format_license_def truthy_def)
  qed
  with assms have "format_raw_text text = Inl e" by (simp add: format_license_def)
  then obtain l n where "format_parts l n = Inl e"
    unfolding format_raw_text_def Let_def
    by (auto split: if_splits option.splits)
  from format_parts_error [OF this] none show ?thesis by blast
qed

text \<open>
  The pass-through of \<open>format_license\<close>: when the primary pattern does not match and the
  fallback parse fails, the result is the upper-cased text without its spaces, which is
  the text itself when upper-casing changes none of its characters and it has no space.
\<close>

lemma upper_unchanged:
  "list_all (\<lambda>c. upper_cp c = [c] \<and> c \<noteq> space) s \<Longrightarrow> remove_char space (upper s) = s"
  by (induction s) (simp_all add: remove_char_def upper_def)

theorem format_license_pass_through:
  assumes "extract_plate_format text = None"
    and "if hyphen \<in> set (remove_char space (upper text))
         then length (split_on hyphen (remove_char space (upper text))) \<noteq> 2
         else re_search_tail (remove_char space (upper text)) = None"
  shows "format_license text = Inr (remove_char space (upper text))"
    and "list_all (\<lambda>c. upper_cp c = [c] \<and> c \<noteq> space) text \<Longrightarrow> format_license text = Inr text"
proof -
  from assms show a: "format_license text = Inr (remove_char space (upper text))"
    by (auto simp: format_license_def format_raw_text_def Let_def split: if_splits)
  assume "list_all (\<lambda>c. upper_cp c = [c] \<and> c \<noteq> space) text"
  from upper_unchanged [OF this] a show "format_license text = Inr text" by simp
qed

lemma format_license_pass_through_example:
  "format_license (str ''ABCD'') = Inr (str ''ABCD'') \<and> format_license (str ''A-B-C'') = Inr (str ''A-B-C'')"
proof -
  have "extract_plate_format (str ''ABCD'') = None" by code_simp
  moreover have "remove_char space (upper (str ''ABCD'')) = str ''ABCD''" by code_simp
  moreover have "re_search_tail (str ''ABCD'') = None" by code_simp
  ultimately have a: "format_license (str ''ABCD'') = Inr (str ''ABCD'')"
    using format_license_pass_through(1) [of "(str ''ABCD'')"] by simp
  have "extract_plate_format (str ''A-B-C'') = None" by code_simp
  moreover have "remove_char space (upper (str ''A-B-C'')) = str ''A-B-C''" by code_simp
  moreover have "length (split_on hyphen (str ''A-B-C'')) = 3" by code_simp
  ultimately have b: "format_license (str ''A-B-C'') = Inr (str ''A-B-C'')"
    using format_license_pass_through(1) [of "(str ''A-B-C'')"] by simp
  from a b show ?thesis by simp
qed

text \<open>
  The shape of what \<open>read_license_plate\<close> returns: seven characters, a hyphen in the
  middle, four decimal digits (characters of the class \<open>\d\<close>) after it, and before it
  two characters each of which is a capital letter or one of the digits 0, 1, 3, 4, 6, 5.
\<close>

theorem read_license_plate_returned_shape:
  "read_license_plate result = Inr (Some r, c) \<Longrightarrow> returned_shape r"
  by (rule read_license_plate_shape)

section \<open>Where the program departs from the specification\<close>

text \<open>
  C1: a character of the number part that is a key of either confusion table is to be
  replaced by its digit form, so that \<open>KF-O617\<close> becomes \<open>KF-0617\<close>. The program
  replaces the letter \<open>O\<close>, but at the digit \<open>6\<close>, a key of \<open>dict_int_to_char\<close>, it
  subscripts \<open>dict_char_to_int\<close>, which has no such key: \<open>format_license\<close> raises
  \<open>KeyError\<close>.
\<close>

theorem format_license_digit_key_raises:
  "format_license (str ''KF-O617'') = Inl (KeyError (cp (CHR ''6'')))"
  by code_simp

text \<open>
  C2: no core operation is to raise. \<open>format_license\<close> raises on \<open>AB-12O4\<close>, and
  \<open>read_license_plate\<close>, which calls it on every hypothesis that complies with the
  format, raises with it.
\<close>

theorem core_operations_raise:
  "license_complies_format (str ''AB-12O4'')
   \<and> format_license (str ''AB-12O4'') = Inl (KeyError (cp (CHR ''1'')))
   \<and> read_license_plate (Some [Some [([], (str ''AB-12O4'', 7 / 10))]]) = Inl (KeyError (cp (CHR ''1'')))"
  by code_simp

text \<open>
  C4: the first hypothesis that matches the primary pattern is to be returned with its
  confidence. Here the second hypothesis matches it, but the first one complies with the
  format and is formatted before the scan gets there; the scan ends in \<open>KeyError\<close>.
\<close>

theorem read_license_plate_raises_before_primary_match:
  "extract_plate_format (upper (str ''AB1234'')) = Some (str ''AB-1234'')
   \<and> extract_plate_format (upper (str ''KF-O617'')) = None
   \<and> read_license_plate (Some [Some [([], (str ''KF-O617'', 4 / 10)), ([], (str ''AB1234'', 9 / 10))]])
       = Inl (KeyError (cp (CHR ''6'')))"
  by code_simp

text \<open>
  C5: with no hypothesis matching the primary pattern, the complying hypothesis of the
  highest confidence is to be returned in its normalized form. Both hypotheses here
  comply and neither matches the primary pattern; the scan raises at the first.
\<close>

theorem read_license_plate_raises_on_candidates:
  "extract_plate_format (upper (str ''KF-O617'')) = None
   \<and> extract_plate_format (upper (str ''KF-O817'')) = None
   \<and> license_complies_format (upper (str ''KF-O617''))
   \<and> license_complies_format (upper (str ''KF-O817''))
   \<and> read_license_plate (Some [Some [([], (str ''KF-O617'', 4 / 10)), ([], (str ''KF-O817'', 8 / 10))]])
       = Inl (KeyError (cp (CHR ''6'')))"
  by code_simp

text \<open>
  C7: when neither the primary pattern nor the fallback parse applies, the input is to
  come back unchanged. What comes back is the upper-cased input without its spaces.
\<close>

theorem format_license_returns_uppercased_text:
  "format_license (str ''abcd'') = Inr (str ''ABCD'') \<and> format_license (str ''a-b c-d'') = Inr (str ''A-BC-D'')"
  by code_simp

text \<open>
  C8: the two letter positions of a returned plate are to be capital letters. The digit
  \<open>0\<close> is accepted at a letter position by \<open>license_complies_format\<close>, and the letter
  loop of \<open>format_license\<close> leaves it as it is.
\<close>

theorem read_license_plate_returns_digit_at_letter_position:
  "read_license_plate (Some [Some [([], (str ''0K-7777'', 1 / 2))]]) = Inr (Some (str ''0K-7777''), Some (1 / 2))
   \<and> \<not> canonical_shape (str ''0K-7777'')"
  by code_simp

text \<open>
  C10: a list whose only complying hypothesis has confidence 0 is to give (absent,
  absent). The hypothesis is formatted before its confidence is compared, and the
  formatting raises.
\<close>

theorem read_license_plate_raises_at_confidence_zero:
  "license_complies_format (upper (str ''KF-O617''))
   \<and> read_license_plate (Some [Some [([], (str ''KF-O617'', 0))]]) = Inl (KeyError (cp (CHR ''6'')))"
  by code_simp

end
